theory Spec2Isabelle
  imports Complex_Main "HOL-Library.Sublist"
begin

section \<open>Static data of \<^verbatim>\<open>src/src/App.jsx\<close>\<close>

text \<open>
  The portfolio page is one React component, \<^verbatim>\<open>App\<close>, with three small helper
  components. Its data are JavaScript object literals. An optional property of an object
  (a link that a project may or may not define) is a \<open>string option\<close>; \<open>None\<close> is
  JavaScript's \<^verbatim>\<open>undefined\<close>.
\<close>

record accent_entry =
  accent_name :: string
  accent_value :: string

definition ACCENTS :: "accent_entry list" where
  "ACCENTS =
    [\<lparr>accent_name = ''Neon'', accent_value = ''#7C3AED''\<rparr>,
     \<lparr>accent_name = ''Ocean'', accent_value = ''#06B6D4''\<rparr>,
     \<lparr>accent_name = ''Lime'', accent_value = ''#84CC16''\<rparr>,
     \<lparr>accent_name = ''Sunset'', accent_value = ''#FB7185''\<rparr>,
     \<lparr>accent_name = ''Gold'', accent_value = ''#F59E0B''\<rparr>,
     \<lparr>accent_name = ''Blue'', accent_value = ''#3B82F6''\<rparr>]"

record project_links =
  live :: "string option"
  code :: "string option"
  artstation :: "string option"

record project =
  title :: string
  short :: string
  description :: string
  tags :: "string list"
  links :: project_links

definition PROJECTS :: "project list" where
  "PROJECTS =
    [\<lparr>title = ''Pc Pricer'', short = ''React + Vite'',
      description = ''PcPricer is a high-performance web application designed to simplify the PC building'',
      tags = [''HTML'', ''CSS'', ''JS''],
      links = \<lparr>live = Some ''https://pc-pricer.vercel.app/'',
               code = Some ''https://github.com/IvanSh-dev/pc-pricer'',
               artstation = None\<rparr>\<rparr>,
     \<lparr>title = ''Kinematic Analysis'', short = ''Maths + Physics'',
      description = ''A desktop application built with Python and Tkinter for calculating and visualizing the velocity vector diagrams of a slider-crank mechanism.'',
      tags = [''Python'', ''Tkinter''],
      links = \<lparr>live = None,
               code = Some ''https://github.com/IvanSh-dev/kinematic-analysis-python'',
               artstation = None\<rparr>\<rparr>,
     \<lparr>title = ''3D Design projects'', short = ''Low poly + Textures'',
      description = ''Bringing concepts to life through 3D visualization and lighting.'',
      tags = [''Blender'', ''Cycles'', ''Animation''],
      links = \<lparr>live = None, code = None,
               artstation = Some ''https://www.artstation.com/ivsh''\<rparr>\<rparr>]"

definition sections :: "string list" where
  "sections = [''home'', ''about'', ''skills'', ''projects'', ''experience'', ''contact'']"

text \<open>
  JavaScript truthiness of a value that is a string or \<^verbatim>\<open>undefined\<close>/\<^verbatim>\<open>null\<close>:
  only a non-empty string is truthy.
\<close>

fun truthy :: "string option \<Rightarrow> bool" where
  "truthy None = False"
| "truthy (Some s) = (s \<noteq> [])"

section \<open>Filter engine\<close>

text \<open>
  \<^verbatim>\<open>
  const allTags = useMemo(() => {
    const s = new Set();
    PROJECTS.forEach((p) => p.tags.forEach((t) => s.add(t)));
    return ["All", ...Array.from(s)];
  }, []);

  const visibleProjects = useMemo(() => {
    if (filter === "All") return PROJECTS;
    return PROJECTS.filter((p) => p.tags.includes(filter));
  }, [filter]);
  \<close>
  Both read the constant \<^verbatim>\<open>PROJECTS\<close>; here the project list is a parameter, and the
  page's values are \<open>allTags PROJECTS\<close> and \<open>visibleProjects PROJECTS filter\<close>.

  A JavaScript \<^verbatim>\<open>Set\<close> iterates in insertion order and \<^verbatim>\<open>add\<close> of a value that is
  already there changes nothing, so the set is a duplicate-free list that grows at its
  end. Strings are compared by exact (case-sensitive) equality, both by \<^verbatim>\<open>Set\<close> and by
  \<^verbatim>\<open>Array.prototype.includes\<close>.
\<close>

definition set_add :: "'a list \<Rightarrow> 'a \<Rightarrow> 'a list" where
  "set_add s t = (if t \<in> set s then s else s @ [t])"

definition add_tags :: "string list \<Rightarrow> project \<Rightarrow> string list" where
  "add_tags s p = foldl set_add s (tags p)"

definition allTags :: "project list \<Rightarrow> string list" where
  "allTags all = ''All'' # foldl add_tags [] all"

definition visibleProjects :: "project list \<Rightarrow> string \<Rightarrow> project list" where
  "visibleProjects all flt =
     (if flt = ''All'' then all else filter (\<lambda>p. flt \<in> set (tags p)) all)"

text \<open>
  The position at which a value first occurs in a list (the length of the list when it
  does not occur).
\<close>

definition first_index :: "'a list \<Rightarrow> 'a \<Rightarrow> nat" where
  "first_index xs x = length (takeWhile (\<lambda>y. y \<noteq> x) xs)"

text \<open>
  The tag vocabulary the way the specification words it: the distinct tags in the order in
  which they are first seen. \<open>remdups\<close> keeps the last occurrence of every value, so the
  list is reversed around it.
\<close>

definition first_seen :: "'a list \<Rightarrow> 'a list" where
  "first_seen xs = rev (remdups (rev xs))"

definition all_tags_of :: "project list \<Rightarrow> string list" where
  "all_tags_of all = concat (map tags all)"

section \<open>Scroll spy\<close>

text \<open>
  \<^verbatim>\<open>const [active, setActive] = useState(ids[0] ?? "home");\<close>
  Reading index 0 of an empty array gives \<^verbatim>\<open>undefined\<close>, and \<^verbatim>\<open>??\<close> replaces
  \<^verbatim>\<open>undefined\<close> (only) by its right operand.
\<close>

fun initial_active :: "string list \<Rightarrow> string" where
  "initial_active [] = ''home''"
| "initial_active (i # _) = i"

text \<open>
  \<^verbatim>\<open>
  useEffect(() => {
    const els = ids.map((id) => document.getElementById(id)).filter(Boolean);
    const obs = new IntersectionObserver(
      (entries) => {
        const v = entries
          .filter((e) => e.isIntersecting)
          .sort((a, b) => (b.intersectionRatio ?? 0) - (a.intersectionRatio ?? 0));
        if (v[0]?.target?.id) setActive(v[0].target.id);
      },
      { threshold: [0.15, 0.3, 0.5], rootMargin: "-10% 0px -70% 0px" }
    );
    els.forEach((el) => obs.observe(el));
    return () => obs.disconnect();
  }, [ids]);
  \<close>
  An element is known by its \<^verbatim>\<open>id\<close>; the document is the list of its elements in tree
  order. \<^verbatim>\<open>getElementById\<close> returns the first element with the given ID or \<^verbatim>\<open>null\<close>;
  an element whose \<^verbatim>\<open>id\<close> is the empty string has no ID, so the empty string finds
  nothing.
\<close>

record element =
  elem_id :: string

type_synonym document = "element list"

definition getElementById :: "document \<Rightarrow> string \<Rightarrow> element option" where
  "getElementById doc i = (if i = [] then None else find (\<lambda>el. elem_id el = i) doc)"

definition observed :: "document \<Rightarrow> string list \<Rightarrow> element list" where
  "observed doc ids = List.map_filter (getElementById doc) ids"

text \<open>
  One \<^verbatim>\<open>IntersectionObserverEntry\<close>. The ratio is a number between 0 and 1; the
  comparator only looks at the sign of a difference of two of them, which is the sign of
  the exact difference, so the ratio is a rational here. \<open>None\<close> is a missing ratio,
  which \<^verbatim>\<open>?? 0\<close> reads as 0.
\<close>

record entry =
  target :: element
  isIntersecting :: bool
  intersectionRatio :: "rat option"

definition ratio_of :: "entry \<Rightarrow> rat" where
  "ratio_of e = (case intersectionRatio e of None \<Rightarrow> 0 | Some r \<Rightarrow> r)"

text \<open>
  The observer's callback, as a function from the active id before the batch to the active
  id after it. \<^verbatim>\<open>Array.prototype.sort\<close> is stable and the comparator
  \<^verbatim>\<open>(a, b) => rb - ra\<close> orders by descending ratio: that is the stable insertion sort
  \<open>sort_key\<close> on the negated ratio. \<^verbatim>\<open>setActive\<close> is called only when the first
  entry's target has a truthy (non-empty) id.
\<close>

definition on_intersect :: "string \<Rightarrow> entry list \<Rightarrow> string" where
  "on_intersect active entries =
     (let v = sort_key (\<lambda>e. - ratio_of e) (filter isIntersecting entries)
      in case v of
           [] \<Rightarrow> active
         | e # _ \<Rightarrow> if elem_id (target e) \<noteq> [] then elem_id (target e) else active)"

text \<open>The value of the hook after the given batches of notifications, oldest first.\<close>

definition useScrollSpy :: "string list \<Rightarrow> entry list list \<Rightarrow> string" where
  "useScrollSpy ids batches = foldl on_intersect (initial_active ids) batches"

text \<open>
  The page has one \<^verbatim>\<open>section\<close> element for each configured id, in this order.
\<close>

definition page_document :: document where
  "page_document = map (\<lambda>i. \<lparr>elem_id = i\<rparr>) sections"

definition sample_batches :: "entry list list" where
  "sample_batches =
    [[\<lparr>target = \<lparr>elem_id = ''home''\<rparr>, isIntersecting = False, intersectionRatio = Some 0\<rparr>,
      \<lparr>target = \<lparr>elem_id = ''about''\<rparr>, isIntersecting = True, intersectionRatio = Some (3 / 10)\<rparr>,
      \<lparr>target = \<lparr>elem_id = ''skills''\<rparr>, isIntersecting = True, intersectionRatio = Some (1 / 2)\<rparr>],
     [\<lparr>target = \<lparr>elem_id = ''about''\<rparr>, isIntersecting = False, intersectionRatio = Some 0\<rparr>]]"

section \<open>Errors\<close>

text \<open>
  The exceptions the browser facilities of this page can throw. A function that can throw
  returns \<open>js_error + 'a\<close>, with \<open>Inl\<close> the exception that leaves it.
\<close>

datatype js_error = SecurityError | QuotaExceededError | NotAllowedError | TypeError

section \<open>Preference store (accent)\<close>

text \<open>
  \<^verbatim>\<open>window.localStorage\<close>: string keys to string values. The browser can refuse
  every access (storage disabled or blocked for the origin: reading the property, and so
  \<^verbatim>\<open>getItem\<close> and \<^verbatim>\<open>setItem\<close>, throws), and \<^verbatim>\<open>setItem\<close> throws
  \<^verbatim>\<open>QuotaExceededError\<close> when the quota is exhausted.
\<close>

record storage =
  items :: "string \<rightharpoonup> string"
  refused :: "js_error option"
  quota_exhausted :: bool

definition getItem :: "storage \<Rightarrow> string \<Rightarrow> js_error + string option" where
  "getItem st k = (case refused st of Some e \<Rightarrow> Inl e | None \<Rightarrow> Inr (items st k))"

definition setItem :: "storage \<Rightarrow> string \<Rightarrow> string \<Rightarrow> js_error + storage" where
  "setItem st k v =
     (case refused st of
        Some e \<Rightarrow> Inl e
      | None \<Rightarrow>
          if quota_exhausted st then Inl QuotaExceededError
          else Inr (st\<lparr>items := (items st)(k \<mapsto> v)\<rparr>))"

text \<open>
  \<^verbatim>\<open>a || b\<close> on a string that may be \<^verbatim>\<open>null\<close>: \<^verbatim>\<open>b\<close> when \<^verbatim>\<open>a\<close> is
  \<^verbatim>\<open>null\<close> or the empty string.
\<close>

fun or_else :: "string option \<Rightarrow> string \<Rightarrow> string" where
  "or_else None d = d"
| "or_else (Some s) d = (if s = [] then d else s)"

text \<open>
  \<^verbatim>\<open>
  const [accent, setAccent] = useState(() => {
    return window.localStorage.getItem("accent") || ACCENTS[0].value;
  });
  \<close>
  There is no \<^verbatim>\<open>try\<close> around the read: an exception of the storage leaves the
  initializer, and with it the render of \<^verbatim>\<open>App\<close>.
\<close>

definition load_accent :: "storage \<Rightarrow> js_error + string" where
  "load_accent st =
     (case getItem st ''accent'' of
        Inl e \<Rightarrow> Inl e
      | Inr v \<Rightarrow> Inr (or_else v (accent_value (ACCENTS ! 0))))"

text \<open>
  \<^verbatim>\<open>
  useEffect(() => {
    document.documentElement.style.setProperty("--accent", accent);
    window.localStorage.setItem("accent", accent);
  }, [accent]);
  \<close>
  The state the effect writes: the style properties of the document element and the
  storage. When \<^verbatim>\<open>setItem\<close> throws, the exception leaves the effect.
\<close>

record page =
  style :: "string \<rightharpoonup> string"
  localStorage :: storage

definition accent_effect :: "page \<Rightarrow> string \<Rightarrow> js_error + page" where
  "accent_effect pg a =
     (let pg1 = pg\<lparr>style := (style pg)(''--accent'' \<mapsto> a)\<rparr>
      in case setItem (localStorage pg1) ''accent'' a of
           Inl e \<Rightarrow> Inl e
         | Inr st \<Rightarrow> Inr (pg1\<lparr>localStorage := st\<rparr>))"

definition empty_storage :: storage where
  "empty_storage = \<lparr>items = Map.empty, refused = None, quota_exhausted = False\<rparr>"

definition blocked_storage :: storage where
  "blocked_storage = \<lparr>items = Map.empty, refused = Some SecurityError, quota_exhausted = False\<rparr>"

definition full_storage :: storage where
  "full_storage = \<lparr>items = Map.empty, refused = None, quota_exhausted = True\<rparr>"

section \<open>Modal\<close>

text \<open>
  \<^verbatim>\<open>
  {project.links.artstation ? (
    <a className="btn" href={project.links.artstation} ...>ArtStation</a>
  ) : (
    <>
      {project.links.code ? (<a className="btn btn--ghost" href={project.links.code} ...>Code</a>) : null}
      {project.links.live ? (<a className="btn" href={project.links.live} ...>Live</a>) : null}
    </>
  )}
  \<close>
  The actions of the modal are the anchors it renders, in document order; each is known
  by its kind and its \<^verbatim>\<open>href\<close>. The gallery link of a project is its
  \<^verbatim>\<open>artstation\<close> link. The conditions are truthiness tests, so an empty string counts
  as no link.
\<close>

datatype action = ArtStationAction string | CodeAction string | LiveAction string

definition modal_actions :: "project \<Rightarrow> action list" where
  "modal_actions p =
     (if truthy (artstation (links p)) then [ArtStationAction (the (artstation (links p)))]
      else (if truthy (code (links p)) then [CodeAction (the (code (links p)))] else []) @
           (if truthy (live (links p)) then [LiveAction (the (live (links p)))] else []))"

definition gallery_project :: project where
  "gallery_project =
     \<lparr>title = ''Gallery'', short = ''Renders'', description = ''All three links'',
      tags = [''Blender''],
      links = \<lparr>live = Some ''https://example.org/live'',
               code = Some ''https://example.org/code'',
               artstation = Some ''https://www.artstation.com/ivsh''\<rparr>\<rparr>"

section \<open>Toast and clipboard\<close>

text \<open>
  \<^verbatim>\<open>
  function Toast({ text, onClose }) {
    useEffect(() => {
      const t = setTimeout(onClose, 1800);
      return () => clearTimeout(t);
    }, [onClose]);
    ...
  }
  // in App:
  const [toast, setToast] = useState(null);
  {toast ? <Toast text={toast} onClose={() => setToast(null)} /> : null}
  \<close>
  The state is the toast text, the time at which the pending timeout (if any) fires, and
  the clock, in milliseconds.

  What React does with this code:
  \<^item> \<^verbatim>\<open>setToast(v)\<close> with \<^verbatim>\<open>v\<close> equal to the current state (\<^verbatim>\<open>Object.is\<close>; strings
    compare by value) renders nothing and runs no effect;
  \<^item> every other state change renders \<^verbatim>\<open>App\<close>. \<^verbatim>\<open>Toast\<close> is mounted exactly when the
    toast text is truthy. Each render of \<^verbatim>\<open>App\<close> passes a new function as
    \<^verbatim>\<open>onClose\<close>, so the dependency of the effect has changed whenever \<^verbatim>\<open>Toast\<close> is
    rendered again: the cleanup clears the old timeout and the effect sets a new one,
    1800 ms from now. Mounting sets the timeout, unmounting clears it.
\<close>

record app =
  toast :: "string option"
  toast_timer :: "nat option"
  now :: nat

definition render :: "app \<Rightarrow> app" where
  "render st = st\<lparr>toast_timer := (if truthy (toast st) then Some (now st + 1800) else None)\<rparr>"

definition setToast :: "string option \<Rightarrow> app \<Rightarrow> app" where
  "setToast v st = (if v = toast st then st else render (st\<lparr>toast := v\<rparr>))"

text \<open>
  \<open>d\<close> milliseconds pass with no other event. A timeout that is due within them fires at
  its time and calls \<^verbatim>\<open>onClose\<close>, that is \<^verbatim>\<open>setToast(null)\<close>.
\<close>

definition advance :: "nat \<Rightarrow> app \<Rightarrow> app" where
  "advance d st =
     (case toast_timer st of
        None \<Rightarrow> st\<lparr>now := now st + d\<rparr>
      | Some t \<Rightarrow>
          if t \<le> now st + d
          then (setToast None (st\<lparr>toast_timer := None, now := t\<rparr>))\<lparr>now := now st + d\<rparr>
          else st\<lparr>now := now st + d\<rparr>)"

definition initial_app :: app where
  "initial_app = \<lparr>toast = None, toast_timer = None, now = 0\<rparr>"

text \<open>
  \<^verbatim>\<open>
  async function copy(text, label) {
    try {
      await navigator.clipboard.writeText(text);
      setToast(`${label} copied`);
    } catch {
      setToast("Copy failed");
    }
  }
  \<close>
  \<^verbatim>\<open>navigator.clipboard\<close> is \<^verbatim>\<open>undefined\<close> outside a secure context; reading
  \<^verbatim>\<open>writeText\<close> of it throws a \<^verbatim>\<open>TypeError\<close>, inside the \<^verbatim>\<open>try\<close>. Otherwise the
  promise of \<^verbatim>\<open>writeText\<close> is fulfilled or rejected, and \<^verbatim>\<open>await\<close> throws the
  rejection. The result of \<open>copy\<close> is the outcome of its own promise.
\<close>

record navigator =
  clipboard :: "(string \<Rightarrow> js_error + unit) option"

definition writeText :: "navigator \<Rightarrow> string \<Rightarrow> js_error + unit" where
  "writeText nav text = (case clipboard nav of None \<Rightarrow> Inl TypeError | Some w \<Rightarrow> w text)"

definition copy :: "navigator \<Rightarrow> string \<Rightarrow> string \<Rightarrow> app \<Rightarrow> js_error + app" where
  "copy nav text label st =
     (case writeText nav text of
        Inr _ \<Rightarrow> Inr (setToast (Some (label @ '' copied'')) st)
      | Inl _ \<Rightarrow> Inr (setToast (Some ''Copy failed'') st))"

definition PROFILE_email :: string where
  "PROFILE_email = ''ivansersharg@gmail.com''"

definition granting_navigator :: navigator where
  "granting_navigator = \<lparr>clipboard = Some (\<lambda>_. Inr ())\<rparr>"

definition denying_navigator :: navigator where
  "denying_navigator = \<lparr>clipboard = Some (\<lambda>_. Inl NotAllowedError)\<rparr>"

definition insecure_navigator :: navigator where
  "insecure_navigator = \<lparr>clipboard = None\<rparr>"

section \<open>Properties of the filter engine\<close>

lemma first_seen_Nil: "first_seen [] = []"
  by (simp add: first_seen_def)

lemma first_seen_snoc:
  "first_seen (xs @ [x]) = (if x \<in> set xs then first_seen xs else first_seen xs @ [x])"
  by (simp add: first_seen_def)

lemma set_first_seen: "set (first_seen xs) = set xs"
  by (simp add: first_seen_def)

lemma distinct_first_seen: "distinct (first_seen xs)"
  by (simp add: first_seen_def)

lemma set_add_first_seen: "set_add (first_seen xs) x = first_seen (xs @ [x])"
  by (simp add: set_add_def first_seen_snoc set_first_seen)

lemma foldl_set_add: "foldl set_add (first_seen xs) ts = first_seen (xs @ ts)"
proof (induction ts arbitrary: xs)
  case Nil
  show ?case by simp
next
  case (Cons t ts)
  have "foldl set_add (first_seen xs) (t # ts) = foldl set_add (first_seen (xs @ [t])) ts"
    by (simp add: set_add_first_seen)
  also have "\<dots> = first_seen ((xs @ [t]) @ ts)"
    by (rule Cons.IH)
  finally show ?case by simp
qed

lemma foldl_add_tags: "foldl add_tags (first_seen xs) ps = first_seen (xs @ all_tags_of ps)"
proof (induction ps arbitrary: xs)
  case Nil
  show ?case by (simp add: all_tags_of_def)
next
  case (Cons p ps)
  have "foldl add_tags (first_seen xs) (p # ps) = foldl add_tags (first_seen (xs @ tags p)) ps"
    by (simp add: add_tags_def foldl_set_add)
  also have "\<dots> = first_seen ((xs @ tags p) @ all_tags_of ps)"
    by (rule Cons.IH)
  finally show ?case by (simp add: all_tags_of_def)
qed

lemma allTags_first_seen: "allTags all = ''All'' # first_seen (all_tags_of all)"
  using foldl_add_tags [of "[]" all] by (simp add: allTags_def first_seen_Nil)

lemma first_index_less: "x \<in> set xs \<Longrightarrow> first_index xs x < length xs"
  by (induction xs) (auto simp: first_index_def)

lemma first_index_append_in: "x \<in> set xs \<Longrightarrow> first_index (xs @ ys) x = first_index xs x"
  by (simp add: first_index_def takeWhile_append1)

lemma first_index_append_notin:
  "x \<notin> set xs \<Longrightarrow> first_index (xs @ ys) x = length xs + first_index ys x"
  by (induction xs) (auto simp: first_index_def)

lemma first_seen_ordered:
  "sorted_wrt (\<lambda>a b. first_index xs a < first_index xs b) (first_seen xs)"
proof (induction xs rule: rev_induct)
  case Nil
  show ?case by (simp add: first_seen_Nil)
next
  case (snoc x xs)
  have old: "sorted_wrt (\<lambda>a b. first_index (xs @ [x]) a < first_index (xs @ [x]) b) (first_seen xs)"
    by (rule sorted_wrt_mono_rel [OF _ snoc.IH]) (simp add: set_first_seen first_index_append_in)
  show ?case
  proof (cases "x \<in> set xs")
    case True
    with old show ?thesis by (simp add: first_seen_snoc)
  next
    case False
    have "first_index (xs @ [x]) a < first_index (xs @ [x]) x" if "a \<in> set xs" for a
      using that False
      by (simp add: first_index_append_in first_index_append_notin first_index_less trans_less_add1)
    with old False show ?thesis
      by (simp add: first_seen_snoc sorted_wrt_append set_first_seen)
  qed
qed

text \<open>
  C3. For every project list the tag vocabulary starts with \<open>''All''\<close>; what follows is
  the list of the projects' tags with every tag kept once, at the place of its first
  occurrence: it has no duplicates, it has exactly the tags of the projects, and its
  members stand in the order of their first positions in the concatenated tag lists.
  Tags are compared by equality of strings, which is case-sensitive.
\<close>

theorem allTags_vocabulary:
  "hd (allTags all) = ''All'' \<and>
   tl (allTags all) = first_seen (all_tags_of all) \<and>
   distinct (tl (allTags all)) \<and>
   set (tl (allTags all)) = set (all_tags_of all) \<and>
   sorted_wrt (\<lambda>a b. first_index (all_tags_of all) a < first_index (all_tags_of all) b)
     (tl (allTags all))"
  by (simp add: allTags_first_seen distinct_first_seen set_first_seen first_seen_ordered)

text \<open>
  C2. For every project list, the filter \<open>''All''\<close> gives the list back as it is. Every
  other filter \<open>t\<close> gives the projects whose tags contain \<open>t\<close>, each as often as it
  occurs and in the order of the list: a subsequence of the list that holds a project
  exactly when the list holds it and \<open>t\<close> is one of its tags.
\<close>

theorem visibleProjects_contract:
  "visibleProjects all ''All'' = all \<and>
   (t \<noteq> ''All'' \<longrightarrow>
      visibleProjects all t = filter (\<lambda>p. t \<in> set (tags p)) all \<and>
      subseq (visibleProjects all t) all \<and>
      (\<forall>p. p \<in> set (visibleProjects all t) \<longleftrightarrow> p \<in> set all \<and> t \<in> set (tags p)))"
  by (auto simp: visibleProjects_def)

theorem visibleProjects_contract_witness:
  "''Python'' \<noteq> ''All'' \<and> visibleProjects PROJECTS ''Python'' = [PROJECTS ! 1] \<and>
   visibleProjects PROJECTS ''python'' = []"
  using visibleProjects_contract [of PROJECTS "''Python''"]
    visibleProjects_contract [of PROJECTS "''python''"]
  by (simp add: PROJECTS_def)

section \<open>Properties of the scroll spy\<close>

lemma getElementById_id: "getElementById doc i = Some el \<Longrightarrow> elem_id el = i \<and> i \<noteq> []"
  by (auto simp: getElementById_def find_Some_iff split: if_splits)

lemma observed_ids: "el \<in> set (observed doc ids) \<Longrightarrow> elem_id el \<in> set ids \<and> elem_id el \<noteq> []"
  by (auto simp: observed_def map_filter_def dest: getElementById_id)

lemma sort_key_hd_least:
  assumes "sort_key f xs = y # ys"
  shows "y \<in> set xs \<and> (\<forall>x\<in>set xs. f y \<le> f x)"
proof -
  have "set (y # ys) = set xs"
    using assms set_sort [of f xs] by simp
  moreover have "sorted (map f (y # ys))"
    using assms sorted_sort_key [of f xs] by simp
  ultimately show ?thesis by auto
qed

lemma on_intersect_none:
  "\<not> (\<exists>e\<in>set b. isIntersecting e) \<Longrightarrow> on_intersect a b = a"
  by (simp add: on_intersect_def filter_empty_conv[THEN iffD2])

lemma on_intersect_some:
  assumes "\<exists>e\<in>set b. isIntersecting e" and "\<forall>e\<in>set b. elem_id (target e) \<noteq> []"
  shows "\<exists>e\<in>set b. isIntersecting e \<and>
           (\<forall>e'\<in>set b. isIntersecting e' \<longrightarrow> ratio_of e' \<le> ratio_of e) \<and>
           on_intersect a b = elem_id (target e)"
proof -
  let ?v = "sort_key (\<lambda>e. - ratio_of e) (filter isIntersecting b)"
  from assms(1) have "filter isIntersecting b \<noteq> []"
    by (simp add: filter_empty_conv)
  then have "?v \<noteq> []"
    by (metis length_sort length_0_conv)
  then obtain e es where v: "?v = e # es"
    by (cases ?v) auto
  from sort_key_hd_least [OF v]
  have e: "e \<in> set b" "isIntersecting e"
    and top: "\<forall>x\<in>set b. isIntersecting x \<longrightarrow> ratio_of x \<le> ratio_of e"
    by auto
  from e assms(2) have "elem_id (target e) \<noteq> []" by blast
  with v have "on_intersect a b = elem_id (target e)"
    by (simp add: on_intersect_def)
  with e top show ?thesis by blast
qed

lemma on_intersect_member:
  assumes "a \<in> set ids" and "\<forall>e\<in>set b. target e \<in> set (observed doc ids)"
  shows "on_intersect a b \<in> set ids"
proof (cases "\<exists>e\<in>set b. isIntersecting e")
  case False
  with assms(1) show ?thesis by (simp add: on_intersect_none)
next
  case True
  from assms(2) have "\<forall>e\<in>set b. elem_id (target e) \<noteq> []"
    using observed_ids by blast
  from on_intersect_some [OF True this, of a]
  obtain e where "e \<in> set b" "on_intersect a b = elem_id (target e)" by blast
  with assms(2) show ?thesis using observed_ids by metis
qed

lemma useScrollSpy_snoc: "useScrollSpy ids (bs @ [b]) = on_intersect (useScrollSpy ids bs) b"
  by (simp add: useScrollSpy_def)

lemma useScrollSpy_member:
  assumes "ids \<noteq> []" and "\<forall>b\<in>set bs. \<forall>e\<in>set b. target e \<in> set (observed doc ids)"
  shows "useScrollSpy ids bs \<in> set ids"
  using assms(2)
proof (induction bs rule: rev_induct)
  case Nil
  from assms(1) show ?case by (cases ids) (simp_all add: useScrollSpy_def)
next
  case (snoc b bs)
  then show ?case
    by (simp add: useScrollSpy_snoc on_intersect_member [where doc = doc])
qed

lemma sample_observed:
  "list_all (list_all (\<lambda>e. target e \<in> set (observed page_document sections))) sample_batches"
  by (simp add: sample_batches_def observed_def page_document_def sections_def getElementById_def)

text \<open>
  C1. The configured id list \<open>ids\<close> is not empty, and every notification is about an
  element the hook observes (an element of the document found under one of the configured
  ids): the observer reports on nothing else. A batch is what the callback receives in one
  call; its intersecting sections are its entries with \<^verbatim>\<open>isIntersecting\<close>.
  Then, for every sequence of batches, the active id is a configured id after each of
  them (and before the first); after a batch with an intersecting entry it is the id of an
  intersecting entry of that batch whose ratio no intersecting entry of the batch exceeds;
  after a batch with none it is what it was before the batch.
\<close>

theorem scroll_spy_active:
  assumes "ids \<noteq> []"
    and "\<forall>b\<in>set batches. \<forall>e\<in>set b. target e \<in> set (observed doc ids)"
  shows "(k \<le> length batches \<longrightarrow> useScrollSpy ids (take k batches) \<in> set ids) \<and>
         (k < length batches \<longrightarrow>
            (if \<exists>e\<in>set (batches ! k). isIntersecting e
             then \<exists>e\<in>set (batches ! k). isIntersecting e \<and>
                    (\<forall>e'\<in>set (batches ! k). isIntersecting e' \<longrightarrow> ratio_of e' \<le> ratio_of e) \<and>
                    useScrollSpy ids (take (Suc k) batches) = elem_id (target e)
             else useScrollSpy ids (take (Suc k) batches) = useScrollSpy ids (take k batches)))"
proof (intro conjI impI)
  have "\<forall>b\<in>set (take k batches). \<forall>e\<in>set b. target e \<in> set (observed doc ids)"
    using assms(2) by (meson in_set_takeD)
  with assms(1) show "useScrollSpy ids (take k batches) \<in> set ids"
    by (rule useScrollSpy_member)
next
  assume k: "k < length batches"
  let ?b = "batches ! k"
  have step: "useScrollSpy ids (take (Suc k) batches) =
      on_intersect (useScrollSpy ids (take k batches)) ?b"
    using k by (simp add: take_Suc_conv_app_nth useScrollSpy_snoc)
  have "?b \<in> set batches" using k by simp
  with assms(2) have "\<forall>e\<in>set ?b. elem_id (target e) \<noteq> []"
    using observed_ids by blast
  then show "if \<exists>e\<in>set ?b. isIntersecting e
             then \<exists>e\<in>set ?b. isIntersecting e \<and>
                    (\<forall>e'\<in>set ?b. isIntersecting e' \<longrightarrow> ratio_of e' \<le> ratio_of e) \<and>
                    useScrollSpy ids (take (Suc k) batches) = elem_id (target e)
             else useScrollSpy ids (take (Suc k) batches) = useScrollSpy ids (take k batches)"
    using on_intersect_some [of ?b "useScrollSpy ids (take k batches)"] on_intersect_none [of ?b]
    by (simp add: step)
qed

theorem scroll_spy_active_witness:
  "sections \<noteq> [] \<and>
   list_all (list_all (\<lambda>e. target e \<in> set (observed page_document sections))) sample_batches \<and>
   useScrollSpy sections (take 0 sample_batches) = ''home'' \<and>
   useScrollSpy sections (take 1 sample_batches) = ''skills'' \<and>
   useScrollSpy sections (take 2 sample_batches) = ''skills'' \<and>
   useScrollSpy sections (take 2 sample_batches) \<in> set sections"
proof -
  have wf: "\<forall>b\<in>set sample_batches. \<forall>e\<in>set b. target e \<in> set (observed page_document sections)"
    using sample_observed by (simp add: list_all_iff)
  have ne: "sections \<noteq> []"
    by (simp add: sections_def)
  have len: "length sample_batches = 2"
    by (simp add: sample_batches_def)
  have "useScrollSpy sections (take 2 sample_batches) \<in> set sections"
    using scroll_spy_active [OF ne wf, of 2] len by simp
  moreover have "useScrollSpy sections (take 0 sample_batches) = ''home''"
    by (simp add: useScrollSpy_def sections_def)
  moreover have "useScrollSpy sections (take 1 sample_batches) = ''skills''"
    by (simp add: useScrollSpy_def sections_def sample_batches_def on_intersect_def ratio_of_def)
  moreover have "useScrollSpy sections (take 2 sample_batches) = ''skills''"
    by (simp add: useScrollSpy_def sections_def sample_batches_def on_intersect_def ratio_of_def)
  ultimately show ?thesis
    using ne sample_observed by simp
qed

text \<open>
  C10. Before any notification the active id is the first configured id; with no
  configured id at all it is \<open>''home''\<close>.
\<close>

theorem useScrollSpy_initial:
  "useScrollSpy [] [] = ''home'' \<and> useScrollSpy (i # ids) [] = i"
  by (simp add: useScrollSpy_def)

section \<open>Properties of the preference store\<close>

text \<open>
  C4, as the specification has it, fails: with the storage refused, the read of the accent
  throws instead of giving the first palette entry, and with the quota exhausted the
  effect that saves the accent throws instead of doing nothing.
\<close>

theorem storage_failure_counterexample:
  "load_accent blocked_storage = Inl SecurityError \<and>
   load_accent blocked_storage \<noteq> Inr (accent_value (ACCENTS ! 0)) \<and>
   accent_effect \<lparr>style = Map.empty, localStorage = full_storage\<rparr> ''#06B6D4'' =
     Inl QuotaExceededError"
  by (simp add: load_accent_def getItem_def blocked_storage_def accent_effect_def setItem_def
      full_storage_def)

text \<open>
  C4, amended. The preference store does not contain a failure of the storage: the read
  of the accent throws exactly the exception that \<^verbatim>\<open>getItem\<close> throws, and the effect
  that saves the accent throws exactly the exception that \<^verbatim>\<open>setItem\<close> throws. So a
  refused storage makes both throw, and an exhausted quota makes the effect throw.
\<close>

theorem storage_failure_propagates:
  "(load_accent st = Inl e \<longleftrightarrow> getItem st ''accent'' = Inl e) \<and>
   (accent_effect pg a = Inl e \<longleftrightarrow> setItem (localStorage pg) ''accent'' a = Inl e) \<and>
   (refused st = Some e \<longrightarrow> load_accent st = Inl e) \<and>
   (refused (localStorage pg) = Some e \<longrightarrow> accent_effect pg a = Inl e) \<and>
   (refused (localStorage pg) = None \<and> quota_exhausted (localStorage pg) \<longrightarrow>
      accent_effect pg a = Inl QuotaExceededError)"
  by (auto simp: load_accent_def accent_effect_def getItem_def setItem_def Let_def
      split: sum.splits option.splits)

theorem storage_failure_propagates_witness:
  "refused blocked_storage = Some SecurityError \<and>
   load_accent blocked_storage = Inl SecurityError \<and>
   accent_effect \<lparr>style = Map.empty, localStorage = blocked_storage\<rparr> ''#06B6D4'' =
     Inl SecurityError \<and>
   refused full_storage = None \<and> quota_exhausted full_storage \<and>
   accent_effect \<lparr>style = Map.empty, localStorage = full_storage\<rparr> ''#06B6D4'' =
     Inl QuotaExceededError"
  using storage_failure_propagates [of blocked_storage SecurityError
      "\<lparr>style = Map.empty, localStorage = blocked_storage\<rparr>" "''#06B6D4''"]
    storage_failure_propagates [of full_storage SecurityError
      "\<lparr>style = Map.empty, localStorage = full_storage\<rparr>" "''#06B6D4''"]
  by (simp add: blocked_storage_def full_storage_def)

text \<open>
  C5, as the specification has it, fails at the empty string: it is a string that can be
  stored under the key, and the read gives the first palette entry instead of it.
\<close>

theorem load_accent_empty_counterexample:
  "getItem (empty_storage\<lparr>items := [''accent'' \<mapsto> '''']\<rparr>) ''accent'' = Inr (Some '''') \<and>
   load_accent (empty_storage\<lparr>items := [''accent'' \<mapsto> '''']\<rparr>) = Inr ''#7C3AED'' \<and>
   load_accent (empty_storage\<lparr>items := [''accent'' \<mapsto> '''']\<rparr>) \<noteq> Inr ''''"
  by (simp add: load_accent_def getItem_def empty_storage_def ACCENTS_def)

text \<open>
  C5, amended. When the storage can be read: with nothing stored under the key the accent
  is the first palette entry; a stored string that is not empty is the accent, whether it
  is in the palette or not; a stored empty string gives the first palette entry, as if
  nothing were stored.
\<close>

theorem load_accent_semantics:
  "(getItem st ''accent'' = Inr None \<longrightarrow> load_accent st = Inr (accent_value (hd ACCENTS))) \<and>
   (getItem st ''accent'' = Inr (Some s) \<and> s \<noteq> [] \<longrightarrow> load_accent st = Inr s) \<and>
   (getItem st ''accent'' = Inr (Some []) \<longrightarrow> load_accent st = Inr (accent_value (hd ACCENTS)))"
  by (simp add: load_accent_def ACCENTS_def)

theorem load_accent_semantics_witness:
  "getItem empty_storage ''accent'' = Inr None \<and>
   load_accent empty_storage = Inr ''#7C3AED'' \<and>
   ''hotpink'' \<notin> set (map accent_value ACCENTS) \<and>
   getItem (empty_storage\<lparr>items := [''accent'' \<mapsto> ''hotpink'']\<rparr>) ''accent'' =
     Inr (Some ''hotpink'') \<and>
   load_accent (empty_storage\<lparr>items := [''accent'' \<mapsto> ''hotpink'']\<rparr>) = Inr ''hotpink''"
  using load_accent_semantics [of empty_storage "''hotpink''"]
    load_accent_semantics [of "empty_storage\<lparr>items := [''accent'' \<mapsto> ''hotpink'']\<rparr>" "''hotpink''"]
  by (simp add: getItem_def empty_storage_def ACCENTS_def)

lemma palette_nonempty: "a \<in> set (map accent_value ACCENTS) \<Longrightarrow> a \<noteq> []"
  by (auto simp: ACCENTS_def)

text \<open>
  C6. On a storage that accepts the write (not refused, quota not exhausted), saving a
  palette value succeeds, and reading the accent from the storage it leaves gives that
  value back; the style property is set to it as well.
\<close>

theorem accent_round_trip:
  assumes "a \<in> set (map accent_value ACCENTS)"
    and "refused (localStorage pg) = None" and "\<not> quota_exhausted (localStorage pg)"
  shows "\<exists>pg'. accent_effect pg a = Inr pg' \<and> load_accent (localStorage pg') = Inr a \<and>
           style pg' ''--accent'' = Some a"
  using assms palette_nonempty [OF assms(1)]
  by (cases a) (simp_all add: accent_effect_def setItem_def load_accent_def getItem_def Let_def)

theorem accent_round_trip_witness:
  "''#84CC16'' \<in> set (map accent_value ACCENTS) \<and> refused empty_storage = None \<and>
   \<not> quota_exhausted empty_storage \<and>
   (\<exists>pg'. accent_effect \<lparr>style = Map.empty, localStorage = empty_storage\<rparr> ''#84CC16'' = Inr pg' \<and>
      load_accent (localStorage pg') = Inr ''#84CC16'')"
  using accent_round_trip [of "''#84CC16''" "\<lparr>style = Map.empty, localStorage = empty_storage\<rparr>"]
  by (auto simp: ACCENTS_def empty_storage_def)

section \<open>Properties of the modal\<close>

text \<open>
  C7. A project exposes a link when the link is defined and not the empty string. If the
  project exposes a gallery link, the gallery action is the only action, whatever its code
  and live links are. Otherwise the actions are the code action, if the project exposes a
  code link, followed by the live action, if it exposes a live link.
\<close>

theorem modal_actions_either_or:
  "(artstation (links p) = Some g \<and> g \<noteq> [] \<longrightarrow> modal_actions p = [ArtStationAction g]) \<and>
   (\<not> truthy (artstation (links p)) \<longrightarrow>
      modal_actions p =
        (case code (links p) of None \<Rightarrow> [] | Some c \<Rightarrow> if c = [] then [] else [CodeAction c]) @
        (case live (links p) of None \<Rightarrow> [] | Some l \<Rightarrow> if l = [] then [] else [LiveAction l]))"
  by (auto simp: modal_actions_def split: option.splits)

theorem modal_actions_either_or_witness:
  "modal_actions gallery_project = [ArtStationAction ''https://www.artstation.com/ivsh''] \<and>
   \<not> truthy (artstation (links (PROJECTS ! 0))) \<and>
   modal_actions (PROJECTS ! 0) =
     [CodeAction ''https://github.com/IvanSh-dev/pc-pricer'',
      LiveAction ''https://pc-pricer.vercel.app/''] \<and>
   modal_actions (PROJECTS ! 1) =
     [CodeAction ''https://github.com/IvanSh-dev/kinematic-analysis-python'']"
  using modal_actions_either_or [of gallery_project "''https://www.artstation.com/ivsh''"]
    modal_actions_either_or [of "PROJECTS ! 0"] modal_actions_either_or [of "PROJECTS ! 1"]
  by (simp add: gallery_project_def PROJECTS_def)

section \<open>Properties of the toast and of the clipboard copy\<close>

lemma toast_setToast: "toast (setToast v st) = v"
  by (simp add: setToast_def render_def)

lemma copied_not_failed: "label @ '' copied'' \<noteq> ''Copy failed''"
proof
  assume "label @ '' copied'' = ''Copy failed''"
  then have "rev (label @ '' copied'') = rev ''Copy failed''" by simp
  then show False by simp
qed

lemma setToast_new:
  "v \<noteq> toast st \<Longrightarrow>
   setToast v st =
     st\<lparr>toast := v, toast_timer := (if truthy v then Some (now st + 1800) else None)\<rparr>"
  by (simp add: setToast_def render_def)

text \<open>
  Any render of \<^verbatim>\<open>App\<close> while the toast is shown (a change of the accent, of the filter,
  of the open project or of the active section) keeps the text and restarts the timeout.
\<close>

lemma render_restarts_timer:
  "truthy (toast st) \<Longrightarrow>
   toast (render st) = toast st \<and> toast_timer (render st) = Some (now st + 1800)"
  by (simp add: render_def)

text \<open>
  C8. When the write to the clipboard succeeds, \<open>copy\<close> completes and the toast text is
  the label followed by \<open>'' copied''\<close>. When it fails, with whatever exception, \<open>copy\<close>
  completes and the toast text is \<open>''Copy failed''\<close>, which is never the success
  message. \<open>copy\<close> never throws.
\<close>

theorem copy_outcome:
  "(writeText nav text = Inr () \<longrightarrow>
      (\<exists>st'. copy nav text label st = Inr st' \<and> toast st' = Some (label @ '' copied''))) \<and>
   (writeText nav text = Inl e \<longrightarrow>
      (\<exists>st'. copy nav text label st = Inr st' \<and> toast st' = Some ''Copy failed'' \<and>
         toast st' \<noteq> Some (label @ '' copied''))) \<and>
   copy nav text label st \<noteq> Inl e'"
  using copied_not_failed [of label]
  by (auto simp: copy_def toast_setToast split: sum.splits)

theorem copy_outcome_witness:
  "writeText granting_navigator PROFILE_email = Inr () \<and>
   (\<exists>st'. copy granting_navigator PROFILE_email ''Email'' initial_app = Inr st' \<and>
      toast st' = Some ''Email copied'') \<and>
   writeText denying_navigator PROFILE_email = Inl NotAllowedError \<and>
   (\<exists>st'. copy denying_navigator PROFILE_email ''Email'' initial_app = Inr st' \<and>
      toast st' = Some ''Copy failed'') \<and>
   writeText insecure_navigator PROFILE_email = Inl TypeError \<and>
   (\<exists>st'. copy insecure_navigator PROFILE_email ''Email'' initial_app = Inr st' \<and>
      toast st' = Some ''Copy failed'')"
proof -
  have g: "writeText granting_navigator PROFILE_email = Inr ()"
    by (simp add: writeText_def granting_navigator_def)
  have d: "writeText denying_navigator PROFILE_email = Inl NotAllowedError"
    by (simp add: writeText_def denying_navigator_def)
  have i: "writeText insecure_navigator PROFILE_email = Inl TypeError"
    by (simp add: writeText_def insecure_navigator_def)
  have "\<exists>st'. copy granting_navigator PROFILE_email ''Email'' initial_app = Inr st' \<and>
      toast st' = Some ''Email copied''"
    using copy_outcome [of granting_navigator PROFILE_email "''Email''" initial_app] g
    by simp
  moreover have "\<exists>st'. copy denying_navigator PROFILE_email ''Email'' initial_app = Inr st' \<and>
      toast st' = Some ''Copy failed''"
    using copy_outcome [of denying_navigator PROFILE_email "''Email''" initial_app NotAllowedError] d
    by blast
  moreover have "\<exists>st'. copy insecure_navigator PROFILE_email ''Email'' initial_app = Inr st' \<and>
      toast st' = Some ''Copy failed''"
    using copy_outcome [of insecure_navigator PROFILE_email "''Email''" initial_app TypeError] i
    by blast
  ultimately show ?thesis
    using g d i by simp
qed

text \<open>
  C9, as the specification has it, fails when the message shown again is the message that
  is visible: the state does not change, nothing is rendered, and the timeout is not
  restarted. Here \<open>''Email copied''\<close> is shown at time 0 and again at time 1000, while it
  is visible; the timeout stays at 1800, and the toast is gone 800 ms after the second
  call.
\<close>

theorem toast_same_message_counterexample:
  "toast (advance 1000 (setToast (Some ''Email copied'') initial_app)) = Some ''Email copied'' \<and>
   now (advance 1000 (setToast (Some ''Email copied'') initial_app)) = 1000 \<and>
   toast_timer (setToast (Some ''Email copied'')
      (advance 1000 (setToast (Some ''Email copied'') initial_app))) = Some 1800 \<and>
   toast (advance 800 (setToast (Some ''Email copied'')
      (advance 1000 (setToast (Some ''Email copied'') initial_app)))) = None"
  by (simp add: setToast_def render_def advance_def initial_app_def)

text \<open>
  C9, amended. While a toast \<open>m1\<close> is visible, showing a message \<open>m2\<close> that is not empty
  and differs from \<open>m1\<close> makes \<open>m2\<close> the one visible message and restarts the timeout:
  it is due 1800 ms after this call, and with no other event in between the toast shows
  \<open>m2\<close> at every time before that and is gone from then on.
\<close>

theorem toast_replace_restart:
  assumes "toast st = Some m1" and "m2 \<noteq> m1" and "m2 \<noteq> []"
  shows "toast (setToast (Some m2) st) = Some m2 \<and>
         toast_timer (setToast (Some m2) st) = Some (now st + 1800) \<and>
         (\<forall>d. toast (advance d (setToast (Some m2) st)) = (if d < 1800 then Some m2 else None))"
  using assms by (simp add: setToast_new advance_def)

theorem toast_replace_restart_witness:
  "toast (advance 1000 (setToast (Some ''Email copied'') initial_app)) = Some ''Email copied'' \<and>
   ''Copy failed'' \<noteq> ''Email copied'' \<and>
   toast_timer (setToast (Some ''Copy failed'')
      (advance 1000 (setToast (Some ''Email copied'') initial_app))) = Some 2800 \<and>
   toast (advance 1799 (setToast (Some ''Copy failed'')
      (advance 1000 (setToast (Some ''Email copied'') initial_app)))) = Some ''Copy failed'' \<and>
   toast (advance 1800 (setToast (Some ''Copy failed'')
      (advance 1000 (setToast (Some ''Email copied'') initial_app)))) = None"
  using toast_replace_restart [of "advance 1000 (setToast (Some ''Email copied'') initial_app)"
      "''Email copied''" "''Copy failed''"]
  by (simp add: setToast_def render_def advance_def initial_app_def)

end
